theory Spec2Isabelle
  imports Main "HOL-Library.Word" "HOL-Library.Sublist"
begin

section \<open>JavaScript values\<close>

text \<open>
  A JavaScript string is a sequence of UTF-16 code units. Literals of the source are
  written \<open>lit ''...''\<close>.
\<close>

type_synonym js_string = "16 word list"

definition lit :: "string \<Rightarrow> js_string" where
  "lit s = map (\<lambda>c. of_char c) s"

text \<open>
  \<open>String.prototype.trim\<close> removes, from both ends, the code units of ECMAScript's
  WhiteSpace and LineTerminator productions: TAB, LF, VT, FF, CR, SP, NBSP, U+1680,
  U+2000 to U+200A, U+2028, U+2029, U+202F, U+205F, U+3000 and U+FEFF.
\<close>

definition is_white_space :: "16 word \<Rightarrow> bool" where
  "is_white_space c =
     (c \<in> set [0x09, 0x0A, 0x0B, 0x0C, 0x0D, 0x20, 0xA0, 0x1680, 0x2028, 0x2029,
                0x202F, 0x205F, 0x3000, 0xFEFF]
      \<or> (0x2000 \<le> c \<and> c \<le> 0x200A))"

definition trim :: "js_string \<Rightarrow> js_string" where
  "trim s = rev (dropWhile is_white_space (rev (dropWhile is_white_space s)))"

text \<open>
  A field that may be absent is an option (\<open>None\<close> is \<open>undefined\<close>). In a condition
  such a value counts as true when it is a string that is not empty; \<open>text_of\<close> reads
  the string of a field, which the loops do only under that condition.
\<close>

definition truthy :: "js_string option \<Rightarrow> bool" where
  "truthy v = (case v of None \<Rightarrow> False | Some s \<Rightarrow> s \<noteq> [])"

definition text_of :: "js_string option \<Rightarrow> js_string" where
  "text_of v = (case v of None \<Rightarrow> [] | Some s \<Rightarrow> s)"

datatype js_error = Error (err_message: js_string)

section \<open>The chat client\<close>

text \<open>
  One chunk of a streamed chat response. The loops read \<open>chunk.message.thinking\<close> and
  \<open>chunk.message.content\<close> only; every other field of a chunk or of its message lives
  in the extension part of the record.
\<close>

record message =
  thinking :: "js_string option"
  content :: "js_string option"

record 'm chunk =
  message :: "'m message_scheme"

text \<open>
  The asynchronous iterable that \<open>ollama.chat\<close> resolves to delivers \<open>chunks\<close> in order
  and then either ends (\<open>failure = None\<close>) or throws (\<open>failure = Some err\<close>).
  The call itself resolves (\<open>Inr\<close>) or rejects (\<open>Inl\<close>).
\<close>

record 'c chat_stream =
  chunks :: "'c list"
  failure :: "js_error option"

record chat_request =
  model :: js_string
  messages :: "(js_string \<times> js_string) list"
  stream :: bool
  think :: bool

type_synonym 'c ollama = "chat_request \<Rightarrow> js_error + 'c chat_stream"

section \<open>The webview extension (src/extension.ts)\<close>

text \<open>Messages the extension host posts to the webview, by their \<open>command\<close>.\<close>

datatype panel_msg =
    Thinking
  | UpdateThinking js_string
  | StartResponse
  | AppendResponse js_string
  | ErrorMsg js_string

text \<open>
  The body of \<open>for await (const chunk of stream)\<close>: the flag \<open>started\<close> before the
  chunk, the flag after it and the messages posted for it.
\<close>

definition ext_chunk :: "bool \<Rightarrow> ('m, 'c) chunk_scheme \<Rightarrow> bool \<times> panel_msg list" where
  "ext_chunk started c =
     (let posted = (if truthy (thinking (message c)) \<and> \<not> started
                    then [UpdateThinking (text_of (thinking (message c)))] else [])
      in if truthy (content (message c))
         then (True,
               posted @ (if \<not> started then [StartResponse] else [])
                      @ [AppendResponse (text_of (content (message c)))])
         else (started, posted))"

fun ext_loop :: "bool \<Rightarrow> ('m, 'c) chunk_scheme list \<Rightarrow> bool \<times> panel_msg list" where
  "ext_loop started [] = (started, [])"
| "ext_loop started (c # cs) =
     (case ext_chunk started c of (s1, m1) \<Rightarrow>
        (case ext_loop s1 cs of (s2, m2) \<Rightarrow> (s2, m1 @ m2)))"

text \<open>A message the webview posts to the extension host.\<close>

datatype host_msg =
    Send (msg_text: js_string) (msg_model: "js_string option")
  | Other_command

record 'r turn =
  requests :: "chat_request list"
  emitted :: "'r list"
  uncaught :: "js_error option"

text \<open>
  The listener of \<open>panel.webview.onDidReceiveMessage\<close>. The request and the loop are
  inside \<open>try\<close>: a rejected call and a stream that throws both reach the \<open>catch\<close>,
  which posts \<open>error\<close> with the error's message.
\<close>

definition onDidReceiveMessage ::
    "js_string \<Rightarrow> ('m, 'c) chunk_scheme ollama \<Rightarrow> host_msg \<Rightarrow> panel_msg turn" where
  "onDidReceiveMessage defaultModel ollama m =
     (case m of
        Other_command \<Rightarrow> \<lparr>requests = [], emitted = [], uncaught = None\<rparr>
      | Send txt mdl \<Rightarrow>
          (let req = \<lparr>model = (if truthy mdl then text_of mdl else defaultModel),
                      messages = [(lit ''user'', txt)], stream = True, think = True\<rparr>
           in case ollama req of
                Inl err \<Rightarrow>
                  \<lparr>requests = [req], emitted = [Thinking, ErrorMsg (err_message err)],
                   uncaught = None\<rparr>
              | Inr s \<Rightarrow>
                  \<lparr>requests = [req],
                   emitted = Thinking # snd (ext_loop False (chunks s))
                      @ (case failure s of None \<Rightarrow> []
                         | Some err \<Rightarrow> [ErrorMsg (err_message err)]),
                   uncaught = None\<rparr>))"

section \<open>The webview script\<close>

text \<open>
  The document below the element \<open>#chat\<close>: text nodes and elements with their tag
  name, their class list, their attribute \<open>data-raw\<close> (\<open>None\<close> when the
  attribute is absent) and their child nodes in document order.
\<close>

datatype node =
    Text_node js_string
  | Element (tag: js_string) (classes: "js_string list") (data_raw: "js_string option")
      (children: "node list")

text \<open>
  The two selectors of the script: \<open>.thinking:last-of-type\<close> and
  \<open>.assistant-message:last-of-type .response-content\<close>. An element is the last of its
  type when no later sibling is an element with the same tag name.
\<close>

datatype selector = Thinking_last_of_type | Response_content_in_last_assistant

definition last_of_type :: "js_string \<Rightarrow> node list \<Rightarrow> bool" where
  "last_of_type tg later =
     list_all (\<lambda>n. case n of Text_node s \<Rightarrow> True | Element tg' cls raw kids \<Rightarrow> tg' \<noteq> tg)
       later"

text \<open>
  Whether an element with tag \<open>tg\<close> and classes \<open>cls\<close>, followed by the siblings
  \<open>later\<close>, matches the selector; \<open>inside\<close> says whether one of its ancestors is an
  \<open>.assistant-message:last-of-type\<close>. \<open>below\<close> is that flag for the element's
  children.
\<close>

definition hits ::
    "selector \<Rightarrow> bool \<Rightarrow> js_string \<Rightarrow> js_string list \<Rightarrow> node list \<Rightarrow> bool" where
  "hits sel inside tg cls later =
     (case sel of
        Thinking_last_of_type \<Rightarrow> lit ''thinking'' \<in> set cls \<and> last_of_type tg later
      | Response_content_in_last_assistant \<Rightarrow> inside \<and> lit ''response-content'' \<in> set cls)"

definition below ::
    "selector \<Rightarrow> bool \<Rightarrow> js_string \<Rightarrow> js_string list \<Rightarrow> node list \<Rightarrow> bool" where
  "below sel inside tg cls later =
     (case sel of
        Thinking_last_of_type \<Rightarrow> inside
      | Response_content_in_last_assistant \<Rightarrow>
          inside \<or> (lit ''assistant-message'' \<in> set cls \<and> last_of_type tg later))"

text \<open>
  \<open>chatEl.querySelector(sel)\<close> on the children of \<open>#chat\<close>: the first matching element
  among all descendants, in document order (an element before its children, its children
  before its later siblings), or \<open>None\<close> for \<open>null\<close>. No ancestor of the children of
  \<open>#chat\<close> has the class \<open>assistant-message\<close>, so the search starts with
  \<open>inside = False\<close>.
\<close>

fun querySelector :: "selector \<Rightarrow> bool \<Rightarrow> node list \<Rightarrow> node option" where
  "querySelector sel inside [] = None"
| "querySelector sel inside (Text_node s # later) = querySelector sel inside later"
| "querySelector sel inside (Element tg cls raw kids # later) =
     (if hits sel inside tg cls later then Some (Element tg cls raw kids)
      else (case querySelector sel (below sel inside tg cls later) kids of
              Some el \<Rightarrow> Some el
            | None \<Rightarrow> querySelector sel inside later))"

text \<open>
  The script changes the element it has found in place. \<open>update_selected sel f\<close> is
  the document in which the element that \<open>querySelector sel\<close> finds has become \<open>f\<close> of
  it, or \<open>None\<close> when nothing is found.
\<close>

fun update_selected ::
    "selector \<Rightarrow> (node \<Rightarrow> node) \<Rightarrow> bool \<Rightarrow> node list \<Rightarrow> node list option" where
  "update_selected sel f inside [] = None"
| "update_selected sel f inside (Text_node s # later) =
     map_option (\<lambda>later'. Text_node s # later') (update_selected sel f inside later)"
| "update_selected sel f inside (Element tg cls raw kids # later) =
     (if hits sel inside tg cls later then Some (f (Element tg cls raw kids) # later)
      else (case update_selected sel f (below sel inside tg cls later) kids of
              Some kids' \<Rightarrow> Some (Element tg cls raw kids' # later)
            | None \<Rightarrow>
                map_option (\<lambda>later'. Element tg cls raw kids # later')
                  (update_selected sel f inside later)))"

text \<open>
  \<open>thinkingEl.textContent = msg.text\<close> replaces the children by one text node (by
  none for the empty string).
\<close>

definition set_textContent :: "js_string \<Rightarrow> node \<Rightarrow> node" where
  "set_textContent t n =
     (case n of
        Text_node s \<Rightarrow> Text_node t
      | Element tg cls raw kids \<Rightarrow> Element tg cls raw (if t = [] then [] else [Text_node t]))"

text \<open>
  The three statements on \<open>contentEl\<close>: \<open>raw\<close> is the attribute \<open>data-raw\<close> (or the
  empty string) followed by \<open>msg.text\<close>; it is stored in the attribute, and
  \<open>marked.parse(raw)\<close> becomes the inner markup. The library function \<open>marked.parse\<close>
  is the parameter \<open>marked_parse\<close>; the browser's parsing of markup into the children
  of an element with a given tag is the parameter \<open>parse_html\<close>.
\<close>

definition append_response ::
    "(js_string \<Rightarrow> js_string \<Rightarrow> node list) \<Rightarrow> (js_string \<Rightarrow> js_string) \<Rightarrow> js_string
       \<Rightarrow> node \<Rightarrow> node" where
  "append_response parse_html marked_parse t n =
     (case n of
        Text_node s \<Rightarrow> Text_node s
      | Element tg cls attr kids \<Rightarrow>
          (let raw = (case attr of None \<Rightarrow> [] | Some r \<Rightarrow> r) @ t
           in Element tg cls (Some raw) (parse_html tg (marked_parse raw))))"

text \<open>
  The two blocks the script inserts from constant markup, written out as the nodes that
  markup stands for: \<open><div class="thinking">Thinking...</div>\<close> and the assistant
  message with its empty \<open>span.response-content\<close>.
\<close>

definition thinking_block :: node where
  "thinking_block = Element (lit ''div'') [lit ''thinking''] None [Text_node (lit ''Thinking...'')]"

definition response_block :: node where
  "response_block =
     Element (lit ''div'') [lit ''assistant-message''] None
       [Element (lit ''strong'') [] None [Text_node (lit ''Response:'')],
        Text_node (lit '' ''),
        Element (lit ''span'') [lit ''response-content''] (Some []) []]"

text \<open>
  The assistant message once its span holds the raw text \<open>raw\<close> and the children
  \<open>kids\<close>; \<open>response_block\<close> is the one with nothing in it yet.
\<close>

definition response_block_with :: "js_string \<Rightarrow> node list \<Rightarrow> node" where
  "response_block_with raw kids =
     Element (lit ''div'') [lit ''assistant-message''] None
       [Element (lit ''strong'') [] None [Text_node (lit ''Response:'')],
        Text_node (lit '' ''),
        Element (lit ''span'') [lit ''response-content''] (Some raw) kids]"

text \<open>
  The listener of \<open>window.addEventListener('message', ...)\<close>.
  \<open>insertAdjacentHTML('beforeend', ...)\<close> appends the nodes of the markup to the
  children of \<open>#chat\<close>; the markup of the error block contains \<open>msg.text\<close> and is
  parsed as a whole. The scroll position is left out. The earlier copy of the script,
  kept in cc_cli.mjs, has the same listener without the case for \<open>error\<close>.
\<close>

definition receive ::
    "(js_string \<Rightarrow> js_string \<Rightarrow> node list) \<Rightarrow> (js_string \<Rightarrow> js_string) \<Rightarrow> panel_msg
       \<Rightarrow> node list \<Rightarrow> node list" where
  \<open>receive parse_html marked_parse msg chatEl =
     (case msg of
        Thinking \<Rightarrow> chatEl @ [thinking_block]
      | UpdateThinking t \<Rightarrow>
          (case update_selected Thinking_last_of_type (set_textContent t) False chatEl of
             None \<Rightarrow> chatEl
           | Some changed \<Rightarrow> changed)
      | StartResponse \<Rightarrow> chatEl @ [response_block]
      | AppendResponse t \<Rightarrow>
          (case update_selected Response_content_in_last_assistant
                  (append_response parse_html marked_parse t) False chatEl of
             None \<Rightarrow> chatEl
           | Some changed \<Rightarrow> changed)
      | ErrorMsg t \<Rightarrow>
          chatEl @ parse_html (lit ''div'')
            (lit ''<div class="assistant-message error"><strong>Error:</strong> '' @ t
             @ lit ''</div>''))\<close>

text \<open>
  The click listener of the send button, on the value of the input box and the selected
  model: the new children of \<open>#chat\<close>, the new value of the input box and the messages
  posted to the extension host.
\<close>

definition on_click ::
    "(js_string \<Rightarrow> js_string \<Rightarrow> node list) \<Rightarrow> (js_string \<Rightarrow> js_string) \<Rightarrow> js_string
       \<Rightarrow> js_string \<Rightarrow> node list \<Rightarrow> node list \<times> js_string \<times> host_msg list" where
  \<open>on_click parse_html marked_parse input_value model_value chatEl =
     (let text = trim input_value
      in if text = [] then (chatEl, input_value, [])
         else (chatEl @ parse_html (lit ''div'')
                 (lit ''<div class="user-message"><strong>You:</strong> '' @ marked_parse text
                  @ lit ''</div>''),
               [], [Send text (Some model_value)]))\<close>

text \<open>
  The panel after one turn whose stream delivered \<open>cs\<close>: every message the extension
  host has posted so far, received in order.
\<close>

definition panel_after ::
    "(js_string \<Rightarrow> js_string \<Rightarrow> node list) \<Rightarrow> (js_string \<Rightarrow> js_string) \<Rightarrow> node list
       \<Rightarrow> ('m, 'c) chunk_scheme list \<Rightarrow> node list" where
  "panel_after parse_html marked_parse chatEl cs =
     fold (receive parse_html marked_parse) (Thinking # snd (ext_loop False cs)) chatEl"

text \<open>
  The element an \<open>appendResponse\<close> would write to, and the raw text it holds: the value
  of its attribute \<open>data-raw\<close>, or the empty string.
\<close>

definition contentEl :: "node list \<Rightarrow> node option" where
  "contentEl chatEl = querySelector Response_content_in_last_assistant False chatEl"

definition raw_of :: "node \<Rightarrow> js_string" where
  "raw_of n =
     (case n of
        Text_node s \<Rightarrow> []
      | Element tg cls attr kids \<Rightarrow> (case attr of None \<Rightarrow> [] | Some r \<Rightarrow> r))"

section \<open>The terminal client (cc_cli.mjs)\<close>

text \<open>Text as the terminal client styles it (\<open>chalk\<close>, \<open>boxen\<close>) and what it writes.\<close>

datatype styled =
    Plain js_string
  | Gray js_string
  | Green js_string
  | White js_string
  | Yellow js_string
  | Boxen styled

datatype term_op =
    Console_log styled
  | Stdout_write styled
  | Rl_prompt

definition cli_chunk :: "bool \<Rightarrow> ('m, 'c) chunk_scheme \<Rightarrow> bool \<times> term_op list" where
  "cli_chunk started c =
     (let written = (if truthy (thinking (message c)) \<and> \<not> started
                     then [Stdout_write (Gray (text_of (thinking (message c))))] else [])
      in if truthy (content (message c))
         then (True,
               written
                 @ (if \<not> started
                    then [Console_log (Green (lit ''\<newline>Response:\<newline>========''))] else [])
                 @ [Stdout_write (White (text_of (content (message c))))])
         else (started, written))"

fun cli_loop :: "bool \<Rightarrow> ('m, 'c) chunk_scheme list \<Rightarrow> bool \<times> term_op list" where
  "cli_loop started [] = (started, [])"
| "cli_loop started (c # cs) =
     (case cli_chunk started c of (s1, w1) \<Rightarrow>
        (case cli_loop s1 cs of (s2, w2) \<Rightarrow> (s2, w1 @ w2)))"

text \<open>
  The listener of \<open>rl.on('line', ...)\<close>. Nothing catches here: a rejected call or a
  stream that throws leaves the listener with the error (\<open>uncaught\<close>), and the
  statements after the loop do not run.
\<close>

definition on_line :: "('m, 'c) chunk_scheme ollama \<Rightarrow> js_string \<Rightarrow> term_op turn" where
  "on_line ollama line =
     (let userMessage = trim line
      in if userMessage = [] then \<lparr>requests = [], emitted = [Rl_prompt], uncaught = None\<rparr>
         else
           (let box = Console_log (Boxen (Yellow (lit ''Thinking...'')));
                req = \<lparr>model = lit ''qwen3:0.6b'', messages = [(lit ''user'', userMessage)],
                       stream = True, think = True\<rparr>
            in case ollama req of
                 Inl err \<Rightarrow> \<lparr>requests = [req], emitted = [box], uncaught = Some err\<rparr>
               | Inr s \<Rightarrow>
                   (case failure s of
                      Some err \<Rightarrow>
                        \<lparr>requests = [req], emitted = box # snd (cli_loop False (chunks s)),
                         uncaught = Some err\<rparr>
                    | None \<Rightarrow>
                        \<lparr>requests = [req],
                         emitted = box # snd (cli_loop False (chunks s))
                            @ [Console_log (Plain (lit ''\<newline>'')), Rl_prompt],
                         uncaught = None\<rparr>)))"

section \<open>The output channel extension (the earlier extension.ts, command ollamaChat.start)\<close>

datatype channel_op =
    Clear
  | AppendLine js_string
  | Append js_string
  | Show

definition channel_chunk :: "bool \<Rightarrow> ('m, 'c) chunk_scheme \<Rightarrow> bool \<times> channel_op list" where
  "channel_chunk started c =
     (let written = (if truthy (thinking (message c)) \<and> \<not> started
                     then [Append (text_of (thinking (message c)))] else [])
      in if truthy (content (message c))
         then (True,
               written
                 @ (if \<not> started
                    then [AppendLine (lit ''''), AppendLine (lit ''Response:''),
                          AppendLine (lit ''========'')] else [])
                 @ [Append (text_of (content (message c)))])
         else (started, written))"

fun channel_loop :: "bool \<Rightarrow> ('m, 'c) chunk_scheme list \<Rightarrow> bool \<times> channel_op list" where
  "channel_loop started [] = (started, [])"
| "channel_loop started (c # cs) =
     (case channel_chunk started c of (s1, w1) \<Rightarrow>
        (case channel_loop s1 cs of (s2, w2) \<Rightarrow> (s2, w1 @ w2)))"

text \<open>
  The command \<open>ollamaChat.start\<close>: \<open>while (true)\<close> over the answers of the input box,
  given here as a list (\<open>None\<close> is \<open>undefined\<close>, the box was cancelled). The loop
  leaves on \<open>undefined\<close> only; nothing catches, so an error ends the command. When the
  list is used up the command is waiting for the next input.
\<close>

fun ollamaChat_start ::
    "('m, 'c) chunk_scheme ollama \<Rightarrow> js_string option list \<Rightarrow> channel_op turn" where
  "ollamaChat_start ollama [] = \<lparr>requests = [], emitted = [], uncaught = None\<rparr>"
| "ollamaChat_start ollama (None # inputs) = \<lparr>requests = [], emitted = [], uncaught = None\<rparr>"
| "ollamaChat_start ollama (Some userInput # inputs) =
     (let shown = [Clear, AppendLine (lit ''Thinking...''), Show];
          req = \<lparr>model = lit ''qwen3:0.6b'', messages = [(lit ''user'', userInput)],
                 stream = True, think = True\<rparr>
      in case ollama req of
           Inl err \<Rightarrow> \<lparr>requests = [req], emitted = shown, uncaught = Some err\<rparr>
         | Inr s \<Rightarrow>
             (case failure s of
                Some err \<Rightarrow>
                  \<lparr>requests = [req], emitted = shown @ snd (channel_loop False (chunks s)),
                   uncaught = Some err\<rparr>
              | None \<Rightarrow>
                  (let later = ollamaChat_start ollama inputs
                   in \<lparr>requests = req # requests later,
                       emitted = shown @ snd (channel_loop False (chunks s)) @ emitted later,
                       uncaught = uncaught later\<rparr>)))"

section \<open>Describing a run\<close>

text \<open>
  The vocabulary of the statements below: whether a chunk carries answer text, the
  reasoning texts and answer texts of a list of chunks in arrival order, the chunks up
  to and including the first one with answer text, and the chunks from that one on.
\<close>

definition has_answer :: "('m, 'c) chunk_scheme \<Rightarrow> bool" where
  "has_answer c = truthy (content (message c))"

definition thinking_texts :: "('m, 'c) chunk_scheme list \<Rightarrow> js_string list" where
  "thinking_texts cs =
     map (\<lambda>c. text_of (thinking (message c))) (filter (\<lambda>c. truthy (thinking (message c))) cs)"

definition answer_texts :: "('m, 'c) chunk_scheme list \<Rightarrow> js_string list" where
  "answer_texts cs = map (\<lambda>c. text_of (content (message c))) (filter has_answer cs)"

definition until_first_answer ::
    "('m, 'c) chunk_scheme list \<Rightarrow> ('m, 'c) chunk_scheme list" where
  "until_first_answer cs =
     takeWhile (\<lambda>c. \<not> has_answer c) cs @ take 1 (dropWhile (\<lambda>c. \<not> has_answer c) cs)"

definition from_first_answer ::
    "('m, 'c) chunk_scheme list \<Rightarrow> ('m, 'c) chunk_scheme list" where
  "from_first_answer cs = dropWhile (\<lambda>c. \<not> has_answer c) cs"

text \<open>
  The three loops differ in what they emit only: \<open>th\<close> for a reasoning text, \<open>st\<close> when
  the answer starts, \<open>an\<close> for an answer text. \<open>drive\<close> is that common shape; each loop
  is shown to be an instance of it, so that a fact about the loops is proved once.
\<close>

fun drive ::
    "(js_string \<Rightarrow> 'o) \<Rightarrow> 'o list \<Rightarrow> (js_string \<Rightarrow> 'o) \<Rightarrow> bool
       \<Rightarrow> ('m, 'c) chunk_scheme list \<Rightarrow> bool \<times> 'o list" where
  "drive th st an started [] = (started, [])"
| "drive th st an started (c # cs) =
     (case drive th st an (started \<or> has_answer c) cs of (s2, o2) \<Rightarrow>
        (s2,
         (if truthy (thinking (message c)) \<and> \<not> started
          then [th (text_of (thinking (message c)))] else [])
         @ (if has_answer c
            then (if started then [] else st) @ [an (text_of (content (message c)))]
            else [])
         @ o2))"

text \<open>
  The render events of the design document, and the event each message posted to the
  webview stands for (its message names, in the order it lists them). No message stands
  for \<open>TurnCompleted\<close>.
\<close>

datatype render_event =
    ThinkingStarted
  | ThinkingUpdated js_string
  | ResponseStarted
  | ResponseUpdated js_string
  | TurnFailed js_string
  | TurnCompleted

fun event_of :: "panel_msg \<Rightarrow> render_event" where
  "event_of Thinking = ThinkingStarted"
| "event_of (UpdateThinking t) = ThinkingUpdated t"
| "event_of StartResponse = ResponseStarted"
| "event_of (AppendResponse t) = ResponseUpdated t"
| "event_of (ErrorMsg t) = TurnFailed t"

text \<open>A chunk with the two text fields and nothing else, for the examples below.\<close>

definition chunk_of :: "js_string option \<Rightarrow> js_string option \<Rightarrow> (unit, unit) chunk_scheme" where
  "chunk_of th an = \<lparr>message = \<lparr>thinking = th, content = an\<rparr>\<rparr>"

text \<open>
  A panel after a turn whose answer, as raw text, was the markup of an
  \<open>assistant-message\<close> block with a \<open>response-content\<close> span holding \<open>x\<close>: the
  response span of that turn has this block as its child.
\<close>

definition panel_with_nested_response :: "node list" where
  "panel_with_nested_response =
     [thinking_block,
      Element (lit ''div'') [lit ''assistant-message''] None
        [Element (lit ''strong'') [] None [Text_node (lit ''Response:'')],
         Text_node (lit '' ''),
         Element (lit ''span'') [lit ''response-content'']
           (Some (lit ''<div class=assistant-message><span class=response-content>x</span></div>''))
           [Element (lit ''div'') [lit ''assistant-message''] None
              [Element (lit ''span'') [lit ''response-content''] None
                 [Text_node (lit ''x'')]]]]]"

section \<open>The loops in closed form\<close>

lemma ext_loop_drive: "ext_loop s cs = drive UpdateThinking [StartResponse] AppendResponse s cs"
  by (induction cs arbitrary: s) (simp_all add: ext_chunk_def has_answer_def Let_def)

lemma cli_loop_drive:
  "cli_loop s cs =
     drive (\<lambda>t. Stdout_write (Gray t))
       [Console_log (Green (lit ''\<newline>Response:\<newline>========''))]
       (\<lambda>t. Stdout_write (White t)) s cs"
  by (induction cs arbitrary: s) (simp_all add: cli_chunk_def has_answer_def Let_def)

lemma channel_loop_drive:
  "channel_loop s cs =
     drive Append
       [AppendLine (lit ''''), AppendLine (lit ''Response:''), AppendLine (lit ''========'')]
       Append s cs"
  by (induction cs arbitrary: s) (simp_all add: channel_chunk_def has_answer_def Let_def)

lemma drive_started: "drive th st an True cs = (True, map an (answer_texts cs))"
  by (induction cs) (simp_all add: answer_texts_def)

lemma drive_closed:
  "drive th st an False cs =
     (from_first_answer cs \<noteq> [],
      map th (thinking_texts (until_first_answer cs))
      @ (if from_first_answer cs = [] then []
         else st @ map an (answer_texts (from_first_answer cs))))"
proof (induction cs)
  case Nil
  show ?case by (simp add: from_first_answer_def until_first_answer_def thinking_texts_def)
next
  case (Cons c cs)
  show ?case
  proof (cases "has_answer c")
    case True
    then show ?thesis
      by (simp add: drive_started from_first_answer_def until_first_answer_def
          thinking_texts_def answer_texts_def)
  next
    case False
    then show ?thesis using Cons.IH
      by (simp add: from_first_answer_def until_first_answer_def thinking_texts_def)
  qed
qed

lemma answer_texts_from_first: "answer_texts (from_first_answer cs) = answer_texts cs"
  by (induction cs) (simp_all add: answer_texts_def from_first_answer_def)

lemma from_first_answer_empty: "(from_first_answer cs = []) = (\<not> list_ex has_answer cs)"
  by (induction cs) (simp_all add: from_first_answer_def)

lemma list_ex_has_answer: "list_ex has_answer cs = (\<exists>c\<in>set cs. truthy (content (message c)))"
  by (simp add: list_ex_iff has_answer_def)

lemma drive_snd:
  "snd (drive th st an False cs) =
     map th (thinking_texts (until_first_answer cs))
     @ (if list_ex has_answer cs then st else [])
     @ map an (answer_texts cs)"
proof (cases "list_ex has_answer cs")
  case True
  then show ?thesis
    by (simp add: drive_closed from_first_answer_empty answer_texts_from_first)
next
  case False
  then have "from_first_answer cs = []" by (simp add: from_first_answer_empty)
  moreover from this have "answer_texts cs = []"
    using answer_texts_from_first [of cs] by (simp add: answer_texts_def)
  ultimately show ?thesis using False by (simp add: drive_closed)
qed

lemma concat_answer_texts:
  "concat (answer_texts cs) = concat (map (\<lambda>c. text_of (content (message c))) cs)"
  by (induction cs)
     (auto simp: answer_texts_def has_answer_def truthy_def text_of_def split: option.splits)

lemma no_text_no_answer:
  "list_all (\<lambda>c. \<not> truthy (thinking (message c)) \<and> \<not> truthy (content (message c))) cs
   \<Longrightarrow> \<not> list_ex has_answer cs \<and> thinking_texts cs = [] \<and> answer_texts cs = []"
  by (induction cs) (simp_all add: has_answer_def thinking_texts_def answer_texts_def)

lemma until_first_answer_all: "\<not> list_ex has_answer cs \<Longrightarrow> until_first_answer cs = cs"
  by (induction cs) (simp_all add: until_first_answer_def)

lemma drive_no_text:
  assumes "list_all (\<lambda>c. \<not> truthy (thinking (message c)) \<and> \<not> truthy (content (message c))) cs"
  shows "snd (drive th st an False cs) = []"
  using no_text_no_answer [OF assms] by (simp add: drive_snd until_first_answer_all)

lemma lit_empty_iff: "(lit s = []) = (s = [])"
  by (simp add: lit_def)

lemma trim_blank:
  assumes "list_all is_white_space s"
  shows "trim s = []"
  using assms by (auto simp: trim_def list_all_iff dest: set_dropWhileD)

section \<open>Finding and changing an element\<close>

lemma query_is_element:
  "querySelector sel inside ns = Some el \<Longrightarrow> \<exists>tg cls raw kids. el = Element tg cls raw kids"
  by (induction sel inside ns rule: querySelector.induct) (auto split: if_splits option.splits)

lemma update_none_iff:
  "(update_selected sel f inside ns = None) = (querySelector sel inside ns = None)"
  by (induction sel inside ns rule: querySelector.induct) (auto split: option.splits)

lemma update_last_of_type:
  assumes keep: "\<And>tg cls raw kids. \<exists>raw' kids'. f (Element tg cls raw kids) = Element tg cls raw' kids'"
  shows "update_selected sel f inside ns = Some ns' \<Longrightarrow> last_of_type tg0 ns' = last_of_type tg0 ns"
proof (induction sel inside ns arbitrary: ns' rule: querySelector.induct)
  case (1 sel inside)
  then show ?case by simp
next
  case (2 sel inside s later)
  then show ?case by (auto simp: last_of_type_def)
next
  case (3 sel inside tg cls raw kids later)
  show ?case
  proof (cases "hits sel inside tg cls later")
    case True
    obtain raw' kids' where f: "f (Element tg cls raw kids) = Element tg cls raw' kids'"
      using keep by blast
    from True f "3.prems" show ?thesis by (auto simp: last_of_type_def)
  next
    case nohit: False
    show ?thesis
    proof (cases "update_selected sel f (below sel inside tg cls later) kids")
      case (Some kids')
      with nohit "3.prems" show ?thesis by (auto simp: last_of_type_def)
    next
      case None
      with nohit "3.prems" obtain later' where
        up: "update_selected sel f inside later = Some later'" and
        ns': "ns' = Element tg cls raw kids # later'"
        by auto
      have nokid: "querySelector sel (below sel inside tg cls later) kids = None"
        using None by (simp add: update_none_iff)
      from "3.IH"(2) [OF nohit nokid up] show ?thesis
        unfolding ns' by (simp add: last_of_type_def)
    qed
  qed
qed

lemma query_update:
  assumes keep: "\<And>tg cls raw kids. \<exists>raw' kids'. f (Element tg cls raw kids) = Element tg cls raw' kids'"
  shows "update_selected sel f inside ns = Some ns'
         \<Longrightarrow> \<exists>el. querySelector sel inside ns = Some el \<and> querySelector sel inside ns' = Some (f el)"
proof (induction sel inside ns arbitrary: ns' rule: querySelector.induct)
  case (1 sel inside)
  then show ?case by simp
next
  case (2 sel inside s later)
  then show ?case by auto
next
  case (3 sel inside tg cls raw kids later)
  show ?case
  proof (cases "hits sel inside tg cls later")
    case True
    obtain raw' kids' where f: "f (Element tg cls raw kids) = Element tg cls raw' kids'"
      using keep by blast
    from True f "3.prems" show ?thesis by auto
  next
    case nohit: False
    show ?thesis
    proof (cases "update_selected sel f (below sel inside tg cls later) kids")
      case (Some kids')
      with nohit "3.prems" have ns': "ns' = Element tg cls raw kids' # later" by simp
      from "3.IH"(1) [OF nohit Some] nohit show ?thesis unfolding ns' by auto
    next
      case None
      with nohit "3.prems" obtain later' where
        up: "update_selected sel f inside later = Some later'" and
        ns': "ns' = Element tg cls raw kids # later'"
        by auto
      have same: "last_of_type tg later' = last_of_type tg later"
        by (rule update_last_of_type [OF keep up])
      have nokid: "querySelector sel (below sel inside tg cls later) kids = None"
        using None by (simp add: update_none_iff)
      from "3.IH"(2) [OF nohit nokid up] obtain el where
        el: "querySelector sel inside later = Some el"
            "querySelector sel inside later' = Some (f el)"
        by blast
      show ?thesis unfolding ns' using nohit nokid el same
        by (auto simp: hits_def below_def split: selector.splits)
    qed
  qed
qed

lemma query_append_some:
  "querySelector sel inside ys \<noteq> None \<Longrightarrow> querySelector sel inside (xs @ ys) \<noteq> None"
proof (induction xs)
  case Nil
  then show ?case by simp
next
  case (Cons x xs)
  then show ?case by (cases x) (auto split: option.splits)
qed

lemma append_response_keeps:
  "\<exists>raw' kids'. append_response ph mp t (Element tg cls raw kids) = Element tg cls raw' kids'"
  by (simp add: append_response_def Let_def)

lemma raw_of_append_response:
  "raw_of (append_response ph mp t (Element tg cls raw kids)) = raw_of (Element tg cls raw kids) @ t"
  by (simp add: append_response_def raw_of_def Let_def)

lemma contentEl_append:
  "contentEl (receive ph mp (AppendResponse t) chatEl)
     = map_option (append_response ph mp t) (contentEl chatEl)"
proof (cases "update_selected Response_content_in_last_assistant (append_response ph mp t) False chatEl")
  case None
  then have "querySelector Response_content_in_last_assistant False chatEl = None"
    by (simp add: update_none_iff)
  with None show ?thesis by (simp add: receive_def contentEl_def)
next
  case (Some changed)
  from query_update [OF append_response_keeps Some] Some show ?thesis
    by (auto simp: receive_def contentEl_def)
qed

lemma raw_contentEl_append:
  "map_option raw_of (contentEl (receive ph mp (AppendResponse t) chatEl))
     = map_option (\<lambda>raw. raw @ t) (map_option raw_of (contentEl chatEl))"
proof (cases "contentEl chatEl")
  case None
  then show ?thesis by (simp add: contentEl_append)
next
  case (Some el)
  then obtain tg cls raw kids where "el = Element tg cls raw kids"
    using query_is_element by (fastforce simp: contentEl_def)
  with Some show ?thesis by (simp add: contentEl_append raw_of_append_response)
qed

lemma contentEl_start: "contentEl (receive ph mp StartResponse chatEl) \<noteq> None"
proof -
  have "querySelector Response_content_in_last_assistant False [response_block] \<noteq> None"
    by (simp add: response_block_def hits_def below_def last_of_type_def lit_def)
  then show ?thesis
    unfolding contentEl_def receive_def by (simp add: query_append_some)
qed

lemma raw_contentEl_appends:
  "map_option raw_of (contentEl (fold (receive ph mp) (map AppendResponse ts) chatEl))
     = map_option (\<lambda>raw. raw @ concat ts) (map_option raw_of (contentEl chatEl))"
proof (induction ts arbitrary: chatEl)
  case Nil
  show ?case by (simp add: option.map_ident)
next
  case (Cons t ts)
  show ?case
    by (simp add: Cons.IH raw_contentEl_append option.map_comp comp_def)
qed

lemma fst_drive: "fst (drive th st an False cs) = list_ex has_answer cs"
  by (simp add: drive_closed from_first_answer_empty)

lemma drive_append:
  "drive th st an s (xs @ ys) =
     (case drive th st an s xs of (s1, o1) \<Rightarrow>
        (case drive th st an s1 ys of (s2, o2) \<Rightarrow> (s2, o1 @ o2)))"
  by (induction xs arbitrary: s) (simp_all split: prod.splits)

lemma ext_loop_snoc:
  assumes "list_ex has_answer cs"
  shows "snd (ext_loop False (cs @ [c]))
           = snd (ext_loop False cs)
             @ (if has_answer c then [AppendResponse (text_of (content (message c)))] else [])"
proof -
  obtain s1 o1 where d: "drive UpdateThinking [StartResponse] AppendResponse False cs = (s1, o1)"
    by (cases "drive UpdateThinking [StartResponse] AppendResponse False cs") auto
  have "s1 = True" using fst_drive [of UpdateThinking "[StartResponse]" AppendResponse cs] d assms
    by simp
  then show ?thesis using d by (simp add: ext_loop_drive drive_append)
qed

lemma panel_answered:
  assumes "list_ex has_answer cs"
  shows "contentEl (panel_after ph mp chatEl cs) \<noteq> None"
proof -
  define before where
    "before = fold (receive ph mp)
       (Thinking # map UpdateThinking (thinking_texts (until_first_answer cs))) chatEl"
  have p: "panel_after ph mp chatEl cs
           = fold (receive ph mp) (map AppendResponse (answer_texts cs))
               (receive ph mp StartResponse before)"
    using assms by (simp add: panel_after_def ext_loop_drive drive_snd before_def)
  have "map_option raw_of (contentEl (panel_after ph mp chatEl cs)) \<noteq> None"
    unfolding p raw_contentEl_appends using contentEl_start [of ph mp before] by simp
  then show ?thesis by auto
qed

lemma response_block_is: "response_block = response_block_with [] []"
  by (simp add: response_block_def response_block_with_def)

lemma last_of_type_append:
  "last_of_type tg (xs @ ys) = (last_of_type tg xs \<and> last_of_type tg ys)"
  by (simp add: last_of_type_def)

lemma later_siblings:
  "querySelector sel inside xs = None \<Longrightarrow> sel = Response_content_in_last_assistant
   \<Longrightarrow> (inside' \<longrightarrow> inside)
   \<Longrightarrow> querySelector sel inside' (xs @ ys) = querySelector sel inside' ys
       \<and> update_selected sel f inside' (xs @ ys)
           = map_option ((@) xs) (update_selected sel f inside' ys)"
proof (induction sel inside xs arbitrary: inside' ys rule: querySelector.induct)
  case (1 sel inside)
  then show ?case by (simp add: option.map_ident)
next
  case (2 sel inside s later)
  then show ?case by (simp add: option.map_comp comp_def)
next
  case (3 sel inside tg cls raw kids later)
  note sel = "3.prems"(2)
  from "3.prems"(1) have nohit: "\<not> hits sel inside tg cls later"
    and nokid: "querySelector sel (below sel inside tg cls later) kids = None"
    and nolater: "querySelector sel inside later = None"
    by (auto split: if_splits option.splits)
  have nohit': "\<not> hits sel inside' tg cls (later @ ys)"
    using nohit "3.prems"(3) sel by (auto simp: hits_def)
  have le: "below sel inside' tg cls (later @ ys) \<longrightarrow> below sel inside tg cls later"
    using "3.prems"(3) sel by (auto simp: below_def last_of_type_append)
  have "querySelector sel (below sel inside' tg cls (later @ ys)) (kids @ [])
        = querySelector sel (below sel inside' tg cls (later @ ys)) []"
    using "3.IH"(1) [OF nohit nokid sel le, of "[]"] by blast
  then have kids': "querySelector sel (below sel inside' tg cls (later @ ys)) kids = None"
    by simp
  then have ukids': "update_selected sel f (below sel inside' tg cls (later @ ys)) kids = None"
    by (simp add: update_none_iff)
  have rest: "querySelector sel inside' (later @ ys) = querySelector sel inside' ys
      \<and> update_selected sel f inside' (later @ ys)
          = map_option ((@) later) (update_selected sel f inside' ys)"
    by (rule "3.IH"(2) [OF nohit nokid nolater sel "3.prems"(3)])
  show ?case using nohit' kids' ukids' rest by (simp add: option.map_comp comp_def)
qed

lemma text_content_keeps:
  "\<exists>raw' kids'. set_textContent t (Element tg cls raw kids) = Element tg cls raw' kids'"
  by (simp add: set_textContent_def)

lemma text_content_quiet:
  "update_selected sel1 (set_textContent t) inside1 ns = Some ns'
   \<Longrightarrow> querySelector sel2 inside2 ns = None \<Longrightarrow> querySelector sel2 inside2 ns' = None"
proof (induction sel1 inside1 ns arbitrary: inside2 ns' rule: querySelector.induct)
  case (1 sel inside)
  then show ?case by simp
next
  case (2 sel inside s later)
  then show ?case by auto
next
  case (3 sel1 inside1 tg cls raw kids later)
  from "3.prems"(2) have nohit2: "\<not> hits sel2 inside2 tg cls later"
    and nokid2: "querySelector sel2 (below sel2 inside2 tg cls later) kids = None"
    and nolater2: "querySelector sel2 inside2 later = None"
    by (auto split: if_splits option.splits)
  show ?case
  proof (cases "hits sel1 inside1 tg cls later")
    case True
    with "3.prems"(1) have "ns' = set_textContent t (Element tg cls raw kids) # later" by simp
    then show ?thesis using nohit2 nolater2 by (simp add: set_textContent_def)
  next
    case nohit: False
    show ?thesis
    proof (cases "update_selected sel1 (set_textContent t) (below sel1 inside1 tg cls later) kids")
      case (Some kids')
      with nohit "3.prems"(1) have ns': "ns' = Element tg cls raw kids' # later" by simp
      have "querySelector sel2 (below sel2 inside2 tg cls later) kids' = None"
        by (rule "3.IH"(1) [OF nohit Some nokid2])
      then show ?thesis unfolding ns' using nohit2 nolater2 by simp
    next
      case None
      with nohit "3.prems"(1) obtain later' where
        up: "update_selected sel1 (set_textContent t) inside1 later = Some later'" and
        ns': "ns' = Element tg cls raw kids # later'"
        by auto
      have nokid1: "querySelector sel1 (below sel1 inside1 tg cls later) kids = None"
        using None by (simp add: update_none_iff)
      have same: "last_of_type tg later' = last_of_type tg later"
        by (rule update_last_of_type [OF text_content_keeps up])
      have "querySelector sel2 inside2 later' = None"
        by (rule "3.IH"(2) [OF nohit nokid1 up nolater2])
      then show ?thesis unfolding ns' using nohit2 nokid2 same
        by (auto simp: hits_def below_def split: selector.splits)
    qed
  qed
qed

lemma updates_quiet:
  "contentEl chatEl = None
   \<Longrightarrow> contentEl (fold (receive ph mp) (map UpdateThinking ts) chatEl) = None"
proof (induction ts arbitrary: chatEl)
  case Nil
  then show ?case by simp
next
  case (Cons t ts)
  have "contentEl (receive ph mp (UpdateThinking t) chatEl) = None"
  proof (cases "update_selected Thinking_last_of_type (set_textContent t) False chatEl")
    case None
    then show ?thesis using Cons.prems by (simp add: receive_def)
  next
    case (Some changed)
    from text_content_quiet [OF Some] Cons.prems Some show ?thesis
      by (simp add: receive_def contentEl_def)
  qed
  then show ?case using Cons.IH by simp
qed

lemma appends_after_quiet:
  assumes "contentEl before = None"
  shows "fold (receive ph mp) (map AppendResponse ts) (before @ [response_block_with raw kids])
     = before @ [response_block_with (raw @ concat ts)
          (if ts = [] then kids else ph (lit ''span'') (mp (raw @ concat ts)))]"
proof (induction ts arbitrary: raw kids)
  case Nil
  show ?case by simp
next
  case (Cons t ts)
  have here: "update_selected Response_content_in_last_assistant (append_response ph mp t) False
        [response_block_with raw kids]
      = Some [response_block_with (raw @ t) (ph (lit ''span'') (mp (raw @ t)))]"
    by (simp add: response_block_with_def hits_def below_def last_of_type_def lit_def
        append_response_def Let_def)
  have "receive ph mp (AppendResponse t) (before @ [response_block_with raw kids])
      = before @ [response_block_with (raw @ t) (ph (lit ''span'') (mp (raw @ t)))]"
    using later_siblings [of Response_content_in_last_assistant False before False
        "[response_block_with raw kids]" "append_response ph mp t"] assms here
    by (simp add: receive_def contentEl_def)
  then show ?case by (simp add: Cons.IH)
qed

lemmas run_defs =
  chunk_of_def ext_chunk_def cli_chunk_def channel_chunk_def truthy_def text_of_def Let_def
  thinking_texts_def answer_texts_def until_first_answer_def from_first_answer_def
  has_answer_def lit_def

section \<open>The start of the response\<close>

text \<open>
  C1. When some chunk carries answer text, every loop is, in order: the reasoning texts
  of the chunks up to and including the first chunk with answer text, then the start of
  the response, then the answer texts from that chunk on. The webview loop posts
  \<open>startResponse\<close> exactly once, before every \<open>appendResponse\<close>; the terminal client
  logs the separator exactly once and the output channel appends its separator lines
  exactly once, at that same place.
\<close>

theorem response_started_once:
  assumes "\<exists>c\<in>set cs. truthy (content (message c))"
  shows "snd (ext_loop False cs) =
           map UpdateThinking (thinking_texts (until_first_answer cs))
           @ [StartResponse] @ map AppendResponse (answer_texts (from_first_answer cs))
       \<and> count_list (snd (ext_loop False cs)) StartResponse = 1
       \<and> snd (cli_loop False cs) =
           map (\<lambda>t. Stdout_write (Gray t)) (thinking_texts (until_first_answer cs))
           @ [Console_log (Green (lit ''\<newline>Response:\<newline>========''))]
           @ map (\<lambda>t. Stdout_write (White t)) (answer_texts (from_first_answer cs))
       \<and> count_list (snd (cli_loop False cs))
            (Console_log (Green (lit ''\<newline>Response:\<newline>========''))) = 1
       \<and> snd (channel_loop False cs) =
           map Append (thinking_texts (until_first_answer cs))
           @ [AppendLine (lit ''''), AppendLine (lit ''Response:''), AppendLine (lit ''========'')]
           @ map Append (answer_texts (from_first_answer cs))
       \<and> count_list (snd (channel_loop False cs)) (AppendLine (lit ''Response:'')) = 1
       \<and> count_list (snd (channel_loop False cs)) (AppendLine (lit ''========'')) = 1"
proof -
  have ne: "from_first_answer cs \<noteq> []"
    using assms by (simp add: from_first_answer_empty list_ex_has_answer)
  have e: "snd (ext_loop False cs) =
           map UpdateThinking (thinking_texts (until_first_answer cs))
           @ [StartResponse] @ map AppendResponse (answer_texts (from_first_answer cs))"
    using ne by (simp add: ext_loop_drive drive_closed)
  have t: "snd (cli_loop False cs) =
           map (\<lambda>t. Stdout_write (Gray t)) (thinking_texts (until_first_answer cs))
           @ [Console_log (Green (lit ''\<newline>Response:\<newline>========''))]
           @ map (\<lambda>t. Stdout_write (White t)) (answer_texts (from_first_answer cs))"
    using ne by (simp add: cli_loop_drive drive_closed)
  have c: "snd (channel_loop False cs) =
           map Append (thinking_texts (until_first_answer cs))
           @ [AppendLine (lit ''''), AppendLine (lit ''Response:''), AppendLine (lit ''========'')]
           @ map Append (answer_texts (from_first_answer cs))"
    using ne by (simp add: channel_loop_drive drive_closed)
  have e1: "count_list (snd (ext_loop False cs)) StartResponse = 1"
    unfolding e by (auto simp: count_list_0_iff)
  have t1: "count_list (snd (cli_loop False cs))
            (Console_log (Green (lit ''\<newline>Response:\<newline>========''))) = 1"
    unfolding t by (auto simp: count_list_0_iff)
  have c1: "count_list (snd (channel_loop False cs)) (AppendLine (lit ''Response:'')) = 1"
    unfolding c by (auto simp: count_list_0_iff lit_def)
  have c2: "count_list (snd (channel_loop False cs)) (AppendLine (lit ''========'')) = 1"
    unfolding c by (auto simp: count_list_0_iff lit_def)
  show ?thesis using e e1 t t1 c c1 c2 by blast
qed

theorem response_started_once_witness:
  "snd (ext_loop False
      [chunk_of (Some (lit ''Let'')) None, chunk_of None (Some (lit ''Hi'')),
       chunk_of (Some (lit ''late'')) (Some (lit '' there''))])
     = [UpdateThinking (lit ''Let''), StartResponse, AppendResponse (lit ''Hi''),
        AppendResponse (lit '' there'')]
   \<and> count_list (snd (ext_loop False
      [chunk_of (Some (lit ''Let'')) None, chunk_of None (Some (lit ''Hi'')),
       chunk_of (Some (lit ''late'')) (Some (lit '' there''))])) StartResponse = 1
   \<and> snd (cli_loop False
      [chunk_of (Some (lit ''Let'')) None, chunk_of None (Some (lit ''Hi'')),
       chunk_of (Some (lit ''late'')) (Some (lit '' there''))])
     = [Stdout_write (Gray (lit ''Let'')),
        Console_log (Green (lit ''\<newline>Response:\<newline>========'')),
        Stdout_write (White (lit ''Hi'')), Stdout_write (White (lit '' there''))]
   \<and> snd (channel_loop False
      [chunk_of (Some (lit ''Let'')) None, chunk_of None (Some (lit ''Hi'')),
       chunk_of (Some (lit ''late'')) (Some (lit '' there''))])
     = [Append (lit ''Let''), AppendLine (lit ''''), AppendLine (lit ''Response:''),
        AppendLine (lit ''========''), Append (lit ''Hi''), Append (lit '' there'')]"
  using response_started_once
    [of "[chunk_of (Some (lit ''Let'')) None, chunk_of None (Some (lit ''Hi'')),
          chunk_of (Some (lit ''late'')) (Some (lit '' there''))]"]
  by (simp add: run_defs)

section \<open>What the panel shows\<close>

text \<open>
  How such a panel comes about: in an empty panel, a turn whose answer text is the markup
  of an \<open>assistant-message\<close> block with a \<open>response-content\<close> span, when the
  rendering of that text parses to these elements.
\<close>

lemma nested_response_arises:
  assumes "parse_html (lit ''span'')
             (marked_parse
                (lit ''<div class=assistant-message><span class=response-content>x</span></div>''))
           = [Element (lit ''div'') [lit ''assistant-message''] None
                [Element (lit ''span'') [lit ''response-content''] None [Text_node (lit ''x'')]]]"
  shows "panel_after parse_html marked_parse []
           [chunk_of None
              (Some (lit ''<div class=assistant-message><span class=response-content>x</span></div>''))]
         = panel_with_nested_response"
  using assms
  by (simp add: panel_after_def receive_def chunk_of_def ext_chunk_def truthy_def text_of_def
      panel_with_nested_response_def thinking_block_def response_block_def hits_def below_def
      last_of_type_def append_response_def Let_def lit_empty_iff lit_def [of "''thinking''"]
      lit_def [of "''assistant-message''"] lit_def [of "''response-content''"]
      lit_def [of "''div''"] lit_def [of "''span''"] lit_def [of "''strong''"])

text \<open>
  C2. A panel in which the answer of an earlier turn was rendered to markup that holds
  an \<open>assistant-message\<close> block of its own with a \<open>response-content\<close> span. In the two
  turns that follow, with the answers \<open>Hi\<close> and \<open>Yo\<close>, the script finds that span first:
  it ends with the raw text \<open>HiYo\<close> and shows the rendering of \<open>HiYo\<close>, the text of two
  turns, while the blocks the two turns inserted keep their empty spans.
\<close>

theorem later_answers_shown_in_earlier_markup:
  "panel_after parse_html marked_parse
     (panel_after parse_html marked_parse panel_with_nested_response
        [chunk_of None (Some (lit ''Hi''))])
     [chunk_of None (Some (lit ''Yo''))]
   = [thinking_block,
      Element (lit ''div'') [lit ''assistant-message''] None
        [Element (lit ''strong'') [] None [Text_node (lit ''Response:'')],
         Text_node (lit '' ''),
         Element (lit ''span'') [lit ''response-content'']
           (Some (lit ''<div class=assistant-message><span class=response-content>x</span></div>''))
           [Element (lit ''div'') [lit ''assistant-message''] None
              [Element (lit ''span'') [lit ''response-content''] (Some (lit ''HiYo''))
                 (parse_html (lit ''span'') (marked_parse (lit ''HiYo'')))]]],
      thinking_block, response_block, thinking_block, response_block]"
  by (simp add: panel_after_def receive_def run_defs panel_with_nested_response_def
      thinking_block_def response_block_def hits_def below_def last_of_type_def
      append_response_def)

text \<open>
  When the script finds no element to write to in the panel as the turn begins (with
  the thinking block in place), the answer goes where the turn put its span: the panel
  ends with the assistant message of this turn, whose span holds, as \<open>data-raw\<close>, the
  concatenation in arrival order of every chunk's answer text and, as children, what
  \<open>marked.parse\<close> of that concatenation parses to.
\<close>

theorem fresh_span_shows_whole_answer:
  assumes "\<exists>c\<in>set cs. truthy (content (message c))"
    and "contentEl (chatEl @ [thinking_block]) = None"
  shows "panel_after parse_html marked_parse chatEl cs
           = fold (receive parse_html marked_parse)
               (map UpdateThinking (thinking_texts (until_first_answer cs)))
               (chatEl @ [thinking_block])
             @ [response_block_with (concat (map (\<lambda>c. text_of (content (message c))) cs))
                  (parse_html (lit ''span'')
                     (marked_parse (concat (map (\<lambda>c. text_of (content (message c))) cs))))]
       \<and> contentEl (panel_after parse_html marked_parse chatEl cs)
           = Some (Element (lit ''span'') [lit ''response-content'']
               (Some (concat (map (\<lambda>c. text_of (content (message c))) cs)))
               (parse_html (lit ''span'')
                  (marked_parse (concat (map (\<lambda>c. text_of (content (message c))) cs)))))"
proof -
  define before where
    "before = fold (receive parse_html marked_parse)
       (map UpdateThinking (thinking_texts (until_first_answer cs))) (chatEl @ [thinking_block])"
  define raw where "raw = concat (map (\<lambda>c. text_of (content (message c))) cs)"
  have started: "list_ex has_answer cs" using assms(1) by (simp add: list_ex_has_answer)
  have quiet: "contentEl before = None"
    unfolding before_def by (rule updates_quiet [OF assms(2)])
  have "from_first_answer cs \<noteq> []" using started by (simp add: from_first_answer_empty)
  then obtain c rest where cr: "from_first_answer cs = c # rest"
    by (cases "from_first_answer cs") auto
  have "has_answer c"
    using cr dropWhile_eq_Cons_conv [of "\<lambda>c. \<not> has_answer c" cs c rest]
    by (simp add: from_first_answer_def)
  then have "answer_texts (from_first_answer cs) \<noteq> []" using cr by (simp add: answer_texts_def)
  then have nz: "answer_texts cs \<noteq> []" by (simp add: answer_texts_from_first)
  have p: "panel_after parse_html marked_parse chatEl cs
      = fold (receive parse_html marked_parse) (map AppendResponse (answer_texts cs))
          (before @ [response_block_with [] []])"
    using started
    by (simp add: panel_after_def ext_loop_drive drive_snd before_def
        receive_def [of _ _ Thinking] receive_def [of _ _ StartResponse] response_block_is)
  have panel: "panel_after parse_html marked_parse chatEl cs
      = before @ [response_block_with raw (parse_html (lit ''span'') (marked_parse raw))]"
    unfolding p appends_after_quiet [OF quiet] using nz
    by (simp add: raw_def concat_answer_texts)
  have "contentEl (before @ [response_block_with raw (parse_html (lit ''span'') (marked_parse raw))])
      = Some (Element (lit ''span'') [lit ''response-content''] (Some raw)
               (parse_html (lit ''span'') (marked_parse raw)))"
    using later_siblings [of Response_content_in_last_assistant False before False
        "[response_block_with raw (parse_html (lit ''span'') (marked_parse raw))]" id] quiet
    by (simp add: contentEl_def response_block_with_def hits_def below_def last_of_type_def
        lit_def)
  with panel show ?thesis by (simp add: before_def raw_def)
qed

theorem fresh_span_shows_whole_answer_witness:
  "panel_after (\<lambda>tg markup. [Text_node markup]) (\<lambda>raw. raw)
      [Element (lit ''div'') [lit ''user-message''] None
         [Element (lit ''strong'') [] None [Text_node (lit ''You:'')], Text_node (lit '' hello'')]]
      [chunk_of (Some (lit ''Let'')) None, chunk_of None (Some (lit ''Hi'')),
       chunk_of None None, chunk_of (Some (lit ''late'')) (Some (lit '' there''))]
     = [Element (lit ''div'') [lit ''user-message''] None
          [Element (lit ''strong'') [] None [Text_node (lit ''You:'')], Text_node (lit '' hello'')],
        Element (lit ''div'') [lit ''thinking''] None [Text_node (lit ''Let'')],
        response_block_with (lit ''Hi there'') [Text_node (lit ''Hi there'')]]"
  using fresh_span_shows_whole_answer
    [of "[chunk_of (Some (lit ''Let'')) None, chunk_of None (Some (lit ''Hi'')),
          chunk_of None None, chunk_of (Some (lit ''late'')) (Some (lit '' there''))]"
        "[Element (lit ''div'') [lit ''user-message''] None
           [Element (lit ''strong'') [] None [Text_node (lit ''You:'')],
            Text_node (lit '' hello'')]]"
        "\<lambda>tg markup. [Text_node markup]" "\<lambda>raw. raw"]
  by (simp add: panel_after_def receive_def run_defs thinking_block_def response_block_def
      response_block_with_def hits_def below_def last_of_type_def append_response_def
      set_textContent_def contentEl_def)

text \<open>
  C9. The raw text only grows at its end. Whatever the panel holds, an
  \<open>appendResponse\<close> leaves the element the script writes to with its old raw text
  followed by the text of the message (and changes nothing when the script finds no such
  element). Over a turn whose response has started, the script finds such an element, and
  after one more chunk that element holds the raw text it held before followed by the
  chunk's answer text, of which the old raw text is a prefix.
\<close>

theorem raw_answer_append_only:
  assumes "\<exists>c\<in>set cs. truthy (content (message c))"
  shows "map_option raw_of (contentEl (receive parse_html marked_parse (AppendResponse t) chatEl))
           = map_option (\<lambda>raw. raw @ t) (map_option raw_of (contentEl chatEl))
       \<and> (\<exists>old new.
             map_option raw_of (contentEl (panel_after parse_html marked_parse panel cs))
               = Some old
           \<and> map_option raw_of
               (contentEl (panel_after parse_html marked_parse panel (cs @ [c])))
               = Some new
           \<and> new = old @ text_of (content (message c))
           \<and> prefix old new)"
proof -
  have started: "list_ex has_answer cs" using assms by (simp add: list_ex_has_answer)
  obtain el where el: "contentEl (panel_after parse_html marked_parse panel cs) = Some el"
    using panel_answered [OF started, of parse_html marked_parse panel] by auto
  have step: "panel_after parse_html marked_parse panel (cs @ [c])
      = fold (receive parse_html marked_parse)
          (if has_answer c then [AppendResponse (text_of (content (message c)))] else [])
          (panel_after parse_html marked_parse panel cs)"
    by (simp add: panel_after_def ext_loop_snoc [OF started])
  have no_text: "text_of (content (message c)) = []" if "\<not> has_answer c"
    using that by (auto simp: has_answer_def truthy_def text_of_def split: option.splits)
  have new: "map_option raw_of
        (contentEl (panel_after parse_html marked_parse panel (cs @ [c])))
      = Some (raw_of el @ text_of (content (message c)))"
  proof (cases "has_answer c")
    case True
    have "map_option raw_of (contentEl (panel_after parse_html marked_parse panel (cs @ [c])))
        = map_option raw_of
            (contentEl (receive parse_html marked_parse
               (AppendResponse (text_of (content (message c))))
               (panel_after parse_html marked_parse panel cs)))"
      by (simp add: step True)
    also have "\<dots> = map_option (\<lambda>raw. raw @ text_of (content (message c)))
        (map_option raw_of (contentEl (panel_after parse_html marked_parse panel cs)))"
      by (rule raw_contentEl_append)
    also have "\<dots> = Some (raw_of el @ text_of (content (message c)))"
      by (simp add: el)
    finally show ?thesis .
  next
    case False
    then show ?thesis by (simp add: step el no_text)
  qed
  have old: "map_option raw_of (contentEl (panel_after parse_html marked_parse panel cs))
      = Some (raw_of el)"
    by (simp add: el)
  have "\<exists>old new.
      map_option raw_of (contentEl (panel_after parse_html marked_parse panel cs)) = Some old
      \<and> map_option raw_of (contentEl (panel_after parse_html marked_parse panel (cs @ [c])))
          = Some new
      \<and> new = old @ text_of (content (message c)) \<and> prefix old new"
    using old new by (intro exI [of _ "raw_of el"]
        exI [of _ "raw_of el @ text_of (content (message c))"]) simp
  then show ?thesis using raw_contentEl_append [of parse_html marked_parse t chatEl] by blast
qed

theorem raw_answer_append_only_witness:
  "map_option raw_of
     (contentEl (panel_after (\<lambda>tg markup. [Text_node markup]) (\<lambda>raw. raw)
        panel_with_nested_response [chunk_of None (Some (lit ''Hi''))]))
     = Some (lit ''Hi'')
   \<and> map_option raw_of
     (contentEl (panel_after (\<lambda>tg markup. [Text_node markup]) (\<lambda>raw. raw)
        panel_with_nested_response
        ([chunk_of None (Some (lit ''Hi''))] @ [chunk_of (Some (lit ''late'')) (Some (lit '' there''))])))
     = Some (lit ''Hi there'')"
  using raw_answer_append_only
    [of "[chunk_of None (Some (lit ''Hi''))]" "\<lambda>tg markup. [Text_node markup]" "\<lambda>raw. raw"
        "[]" "[]" panel_with_nested_response
        "chunk_of (Some (lit ''late'')) (Some (lit '' there''))"]
  by (simp add: panel_after_def receive_def run_defs panel_with_nested_response_def
      thinking_block_def response_block_def hits_def below_def last_of_type_def
      append_response_def contentEl_def raw_of_def)

section \<open>Reasoning after the answer has started\<close>

text \<open>
  The second chunk carries reasoning text, and no front end surfaces it: the answer had
  started with the first chunk.
\<close>

theorem late_reasoning_not_surfaced:
  "truthy (thinking (message (chunk_of (Some (lit ''Hmm'')) None)))
   \<and> snd (ext_loop False [chunk_of None (Some (lit ''Hi'')), chunk_of (Some (lit ''Hmm'')) None])
       = [StartResponse, AppendResponse (lit ''Hi'')]
   \<and> snd (cli_loop False [chunk_of None (Some (lit ''Hi'')), chunk_of (Some (lit ''Hmm'')) None])
       = [Console_log (Green (lit ''\<newline>Response:\<newline>========'')),
          Stdout_write (White (lit ''Hi''))]
   \<and> snd (channel_loop False
        [chunk_of None (Some (lit ''Hi'')), chunk_of (Some (lit ''Hmm'')) None])
       = [AppendLine (lit ''''), AppendLine (lit ''Response:''), AppendLine (lit ''========''),
          Append (lit ''Hi'')]"
  by (simp add: run_defs)

text \<open>
  C3, as amended. In every front end the reasoning text of a chunk is surfaced exactly
  when the chunk comes no later than the first chunk with answer text; the answer text of
  every chunk that has some is surfaced, whatever came before it.
\<close>

theorem reasoning_surfaced_until_answer:
  "snd (ext_loop False cs) =
     map UpdateThinking (thinking_texts (until_first_answer cs))
     @ (if list_ex has_answer cs then [StartResponse] else [])
     @ map AppendResponse (answer_texts cs)
   \<and> snd (cli_loop False cs) =
     map (\<lambda>t. Stdout_write (Gray t)) (thinking_texts (until_first_answer cs))
     @ (if list_ex has_answer cs
        then [Console_log (Green (lit ''\<newline>Response:\<newline>========''))] else [])
     @ map (\<lambda>t. Stdout_write (White t)) (answer_texts cs)
   \<and> snd (channel_loop False cs) =
     map Append (thinking_texts (until_first_answer cs))
     @ (if list_ex has_answer cs
        then [AppendLine (lit ''''), AppendLine (lit ''Response:''), AppendLine (lit ''========'')]
        else [])
     @ map Append (answer_texts cs)"
  by (simp only: ext_loop_drive cli_loop_drive channel_loop_drive drive_snd simp_thms)

section \<open>The end of a stream\<close>

text \<open>
  A stream that ends at once: the webview is posted \<open>thinking\<close> and nothing else, and
  no message stands for the completion of the turn.
\<close>

theorem no_completion_event:
  "map event_of (emitted (onDidReceiveMessage (lit ''qwen3:0.6b'')
       (\<lambda>req. Inr \<lparr>chunks = ([] :: (unit, unit) chunk_scheme list), failure = None\<rparr>)
       (Send (lit ''hi'') None)))
     = [ThinkingStarted]
   \<and> map event_of (emitted (onDidReceiveMessage (lit ''qwen3:0.6b'')
       (\<lambda>req. Inr \<lparr>chunks = ([] :: (unit, unit) chunk_scheme list), failure = None\<rparr>)
       (Send (lit ''hi'') None)))
     \<noteq> [TurnCompleted]
   \<and> snd (ext_loop False ([] :: (unit, unit) chunk_scheme list)) = []"
  by (simp add: onDidReceiveMessage_def)

text \<open>
  C4, as amended. When the stream ends normally, the webview extension has posted
  \<open>thinking\<close> and the messages of the loop and posts nothing more, the output channel
  extension has written its \<open>Thinking...\<close> line and what the loop appended and writes
  nothing more, and the terminal client, after its \<open>Thinking...\<close> box and what the loop
  wrote, logs a line break and prompts again. When no chunk carries any text, the three
  loops post and write nothing.
\<close>

theorem exhausted_turn_outputs:
  assumes "trim line \<noteq> []"
  shows "emitted (onDidReceiveMessage defaultModel (\<lambda>req. Inr \<lparr>chunks = cs, failure = None\<rparr>)
            (Send txt mdl))
           = Thinking # snd (ext_loop False cs)
       \<and> emitted (on_line (\<lambda>req. Inr \<lparr>chunks = cs, failure = None\<rparr>) line)
           = Console_log (Boxen (Yellow (lit ''Thinking...''))) # snd (cli_loop False cs)
             @ [Console_log (Plain (lit ''\<newline>'')), Rl_prompt]
       \<and> emitted (ollamaChat_start (\<lambda>req. Inr \<lparr>chunks = cs, failure = None\<rparr>) [Some userInput])
           = [Clear, AppendLine (lit ''Thinking...''), Show] @ snd (channel_loop False cs)
       \<and> (list_all (\<lambda>c. \<not> truthy (thinking (message c)) \<and> \<not> truthy (content (message c))) cs
            \<longrightarrow> snd (ext_loop False cs) = [] \<and> snd (cli_loop False cs) = []
                \<and> snd (channel_loop False cs) = [])"
  using assms
  by (simp add: onDidReceiveMessage_def on_line_def Let_def ext_loop_drive cli_loop_drive
      channel_loop_drive drive_no_text)

theorem exhausted_turn_outputs_witness:
  "emitted (onDidReceiveMessage (lit ''qwen3:0.6b'')
      (\<lambda>req. Inr \<lparr>chunks = [chunk_of None (Some []), chunk_of None None], failure = None\<rparr>)
      (Send (lit ''hi'') None))
     = [Thinking]
   \<and> emitted (on_line
      (\<lambda>req. Inr \<lparr>chunks = [chunk_of None (Some []), chunk_of None None], failure = None\<rparr>)
      (lit '' hi''))
     = [Console_log (Boxen (Yellow (lit ''Thinking...''))), Console_log (Plain (lit ''\<newline>'')),
        Rl_prompt]
   \<and> emitted (ollamaChat_start
      (\<lambda>req. Inr \<lparr>chunks = [chunk_of None (Some []), chunk_of None None], failure = None\<rparr>)
      [Some (lit ''hi'')])
     = [Clear, AppendLine (lit ''Thinking...''), Show]"
  using exhausted_turn_outputs
    [of "lit '' hi''" "lit ''qwen3:0.6b''" "[chunk_of None (Some []), chunk_of None None]"
        "lit ''hi''" None "lit ''hi''"]
  by (simp add: run_defs trim_def is_white_space_def)

section \<open>A stream that fails\<close>

text \<open>
  C5. The stream delivers one chunk with the answer text \<open>X\<close> and then throws. The
  terminal client and the output channel extension have written the separator and
  \<open>X\<close>; the error leaves the listener uncaught, and its message is written nowhere.
\<close>

theorem terminal_failure_not_printed:
  "emitted (on_line
      (\<lambda>req. Inr \<lparr>chunks = [chunk_of None (Some (lit ''X''))],
                    failure = Some (Error (lit ''fetch failed''))\<rparr>)
      (lit ''hi''))
     = [Console_log (Boxen (Yellow (lit ''Thinking...''))),
        Console_log (Green (lit ''\<newline>Response:\<newline>========'')),
        Stdout_write (White (lit ''X''))]
   \<and> uncaught (on_line
      (\<lambda>req. Inr \<lparr>chunks = [chunk_of None (Some (lit ''X''))],
                    failure = Some (Error (lit ''fetch failed''))\<rparr>)
      (lit ''hi''))
     = Some (Error (lit ''fetch failed''))
   \<and> emitted (ollamaChat_start
      (\<lambda>req. Inr \<lparr>chunks = [chunk_of None (Some (lit ''X''))],
                    failure = Some (Error (lit ''fetch failed''))\<rparr>)
      [Some (lit ''hi'')])
     = [Clear, AppendLine (lit ''Thinking...''), Show, AppendLine (lit ''''),
        AppendLine (lit ''Response:''), AppendLine (lit ''========''), Append (lit ''X'')]
   \<and> uncaught (ollamaChat_start
      (\<lambda>req. Inr \<lparr>chunks = [chunk_of None (Some (lit ''X''))],
                    failure = Some (Error (lit ''fetch failed''))\<rparr>)
      [Some (lit ''hi'')])
     = Some (Error (lit ''fetch failed''))"
  by (simp add: on_line_def run_defs trim_def is_white_space_def)

text \<open>
  The webview extension catches: after the messages of the chunks that were delivered it
  posts \<open>error\<close> with the error's message and nothing more, also when the request
  itself is rejected, and the panel appends the markup of an error block with that
  message.
\<close>

theorem webview_failure_posted:
  \<open>emitted (onDidReceiveMessage defaultModel (\<lambda>req. Inr \<lparr>chunks = cs, failure = Some err\<rparr>)
       (Send txt mdl))
     = Thinking # snd (ext_loop False cs) @ [ErrorMsg (err_message err)]
   \<and> emitted (onDidReceiveMessage defaultModel ((\<lambda>req. Inl err) :: ('m, 'c) chunk_scheme ollama)
       (Send txt mdl))
     = [Thinking, ErrorMsg (err_message err)]
   \<and> fold (receive parse_html marked_parse)
        (emitted (onDidReceiveMessage defaultModel
           (\<lambda>req. Inr \<lparr>chunks = cs, failure = Some err\<rparr>) (Send txt mdl))) chatEl
     = panel_after parse_html marked_parse chatEl cs
       @ parse_html (lit ''div'')
           (lit ''<div class="assistant-message error"><strong>Error:</strong> ''
            @ err_message err @ lit ''</div>'')\<close>
  by (simp add: onDidReceiveMessage_def panel_after_def receive_def [of _ _ "ErrorMsg _"])

section \<open>Blank input\<close>

text \<open>
  C8. The output channel extension leaves its loop on a cancelled input box only: for an
  input of two spaces, which \<open>trim\<close> makes empty, it shows \<open>Thinking...\<close> and sends
  the chat request.
\<close>

theorem channel_blank_input_is_sent:
  "trim (lit ''  '') = []
   \<and> requests (ollamaChat_start
       (\<lambda>req. Inr \<lparr>chunks = ([] :: (unit, unit) chunk_scheme list), failure = None\<rparr>)
       [Some (lit ''  '')])
     = [\<lparr>model = lit ''qwen3:0.6b'', messages = [(lit ''user'', lit ''  '')],
         stream = True, think = True\<rparr>]
   \<and> emitted (ollamaChat_start
       (\<lambda>req. Inr \<lparr>chunks = ([] :: (unit, unit) chunk_scheme list), failure = None\<rparr>)
       [Some (lit ''  '')])
     = [Clear, AppendLine (lit ''Thinking...''), Show]"
  by (simp add: lit_def trim_def is_white_space_def)

text \<open>
  The terminal client and the webview script do reject a line that is empty or white
  space only: the terminal client prompts again and the click listener leaves the panel
  and the input box as they are; neither sends a request or a message.
\<close>

theorem blank_input_creates_no_turn:
  assumes "list_all is_white_space line"
  shows "on_line ollama line = \<lparr>requests = [], emitted = [Rl_prompt], uncaught = None\<rparr>
       \<and> on_click parse_html marked_parse line model_value chatEl = (chatEl, line, [])"
  using trim_blank [OF assms] by (simp add: on_line_def on_click_def)

theorem blank_input_creates_no_turn_witness:
  "on_line (\<lambda>req. Inr \<lparr>chunks = [chunk_of None (Some (lit ''X''))], failure = None\<rparr>)
      [0x20, 0x09, 0x3000]
     = \<lparr>requests = [], emitted = [Rl_prompt], uncaught = None\<rparr>
   \<and> on_click (\<lambda>tg markup. [Text_node markup]) (\<lambda>raw. raw) [0x20, 0x09, 0x3000]
       (lit ''qwen3:0.6b'') []
     = ([], [0x20, 0x09, 0x3000], [])"
  by (rule blank_input_creates_no_turn) (simp add: is_white_space_def)

section \<open>Chunks without text\<close>

text \<open>
  C6. A chunk whose reasoning field and answer field are both empty or absent makes no
  front end write or post anything, and leaves the flag \<open>started\<close> as it was; a run
  of the webview loop and the panel are the same with and without such a chunk at the
  end.
\<close>

theorem empty_chunk_is_noop:
  assumes "\<not> truthy (thinking (message c))" and "\<not> truthy (content (message c))"
  shows "ext_chunk started c = (started, [])
       \<and> cli_chunk started c = (started, [])
       \<and> channel_chunk started c = (started, [])
       \<and> ext_loop False (cs @ [c]) = ext_loop False cs
       \<and> panel_after parse_html marked_parse chatEl (cs @ [c])
           = panel_after parse_html marked_parse chatEl cs"
proof -
  have step: "ext_chunk s c = (s, [])" for s
    using assms by (simp add: ext_chunk_def)
  have "ext_loop s (cs @ [c]) = ext_loop s cs" for s
    by (induction cs arbitrary: s) (simp_all add: step split: prod.splits)
  then show ?thesis
    using assms by (simp add: ext_chunk_def cli_chunk_def channel_chunk_def panel_after_def)
qed

theorem empty_chunk_is_noop_witness:
  "ext_chunk True (chunk_of None (Some [])) = (True, [])
   \<and> cli_chunk True (chunk_of None (Some [])) = (True, [])
   \<and> channel_chunk True (chunk_of None (Some [])) = (True, [])
   \<and> panel_after (\<lambda>tg markup. [Text_node markup]) (\<lambda>raw. raw) []
        ([chunk_of None (Some (lit ''Hi''))] @ [chunk_of None (Some [])])
     = panel_after (\<lambda>tg markup. [Text_node markup]) (\<lambda>raw. raw) []
        [chunk_of None (Some (lit ''Hi''))]"
  using empty_chunk_is_noop
    [of "chunk_of None (Some [])" True "[chunk_of None (Some (lit ''Hi''))]"
        "\<lambda>tg markup. [Text_node markup]" "\<lambda>raw. raw" "[]"]
  by (simp add: truthy_def chunk_of_def)

end
